theory Spec2Isabelle
  imports Complex_Main
begin

section \<open>Design constants and the poster-type catalog\<close>

text \<open>
  The numeric constants of \<^verbatim>\<open>src/app/index.tsx\<close>. The layout arithmetic and the
  interpolation of the animation library are read over the real numbers; the shadow
  opacity, which \<^verbatim>\<open>PosterCard\<close> computes itself from decimal literals, is read in IEEE
  754 double precision (section "Double-precision arithmetic").
\<close>

definition CARD_WIDTH :: real where
  "CARD_WIDTH = 110"

definition CARD_SPACING :: real where
  "CARD_SPACING = 14"

definition LEFT_PADDING :: real where
  "LEFT_PADDING = 18"

record PosterType =
  key :: string
  title :: string
  subtitle :: "string option"
  color :: string
  image :: string
  tag :: "string option"

definition POSTER_TYPES :: "PosterType list" where
  "POSTER_TYPES =
    [ \<lparr> key = ''display'', title = ''Display'', subtitle = Some ''Prod'',
        color = ''#5F4BB6'',
        image = ''https://images.unsplash.com/photo-1507525428034-b723cf961d3e'',
        tag = Some ''New Limited Edition'' \<rparr>,
      \<lparr> key = ''promotion'', title = ''Promotion'', subtitle = None,
        color = ''#3A7A5E'',
        image = ''https://images.unsplash.com/photo-1503602642458-232111445657'',
        tag = Some ''Up to 50% Off'' \<rparr>,
      \<lparr> key = ''branding'', title = ''Branding'', subtitle = None,
        color = ''#3C3C3C'',
        image = ''https://images.unsplash.com/photo-1529101091764-c3526daf38fe'',
        tag = Some ''Editor's Choice'' \<rparr>,
      \<lparr> key = ''announcement'', title = ''Announce'', subtitle = None,
        color = ''#3E7CB1'',
        image = ''https://images.unsplash.com/photo-1504384764586-bb4cdc1707b0'',
        tag = None \<rparr>,
      \<lparr> key = ''poster'', title = ''Poster'', subtitle = None,
        color = ''#7A3A3A'',
        image = ''https://images.unsplash.com/photo-1522202176988-66273c2fd55f'',
        tag = None \<rparr>,
      \<lparr> key = ''menu'', title = ''Menu'', subtitle = None,
        color = ''#4B7F99'',
        image = ''https://images.unsplash.com/photo-1555396273-367ea4eb4db5'',
        tag = None \<rparr> ]"

section \<open>Clamped interpolation\<close>

text \<open>
  Modelled from the spec: \<^verbatim>\<open>interpolate\<close> and \<^verbatim>\<open>Extrapolate.CLAMP\<close> are imported from
  the animation library (react-native-reanimated) and are not in the repository. The spec
  describes the card transform as a continuous function of the distance, "clamped at fixed
  breakpoints"; the definitions below follow the library's piecewise-linear interpolation:
  the segment of the input range holding \<open>x\<close> is selected (the last one when \<open>x\<close> is
  beyond the range, the first one when it is before), the value is interpolated linearly on
  it, and a value outside the segment's two outputs is replaced by the nearer one. Ranges
  with fewer than two points are an error (\<open>None\<close>); so are ranges of different lengths,
  which the library does not define.
\<close>

type_synonym narrowedInput = "real \<times> real \<times> real \<times> real"
  \<comment> \<open>leftEdgeInput, rightEdgeInput, leftEdgeOutput, rightEdgeOutput\<close>

definition internalInterpolate :: "real \<Rightarrow> narrowedInput \<Rightarrow> real" where
  "internalInterpolate x seg =
    (case seg of (leftEdgeInput, rightEdgeInput, leftEdgeOutput, rightEdgeOutput) \<Rightarrow>
      if rightEdgeInput - leftEdgeInput = 0 then leftEdgeOutput
      else
        let progress = (x - leftEdgeInput) / (rightEdgeInput - leftEdgeInput);
            val = leftEdgeOutput + progress * (rightEdgeOutput - leftEdgeOutput);
            coef = (if rightEdgeOutput \<ge> leftEdgeOutput then 1 else - 1 :: real)
        in if coef * val < coef * leftEdgeOutput then leftEdgeOutput
           else if coef * val > coef * rightEdgeOutput then rightEdgeOutput
           else val)"

fun narrowLoop :: "real \<Rightarrow> real list \<Rightarrow> real list \<Rightarrow> narrowedInput option" where
  "narrowLoop x (a # b # ins) (p # q # outs) =
    (if x \<le> b then Some (a, b, p, q) else narrowLoop x (b # ins) (q # outs))"
| "narrowLoop x _ _ = None"

definition interpolate :: "real \<Rightarrow> real list \<Rightarrow> real list \<Rightarrow> real option" where
  "interpolate x inputRange outputRange =
    (if length inputRange < 2 \<or> length outputRange < 2
        \<or> length inputRange \<noteq> length outputRange then None
     else
       let n = length inputRange;
           first = (inputRange ! 0, inputRange ! 1, outputRange ! 0, outputRange ! 1);
           narrowed =
             (if n > 2 then
                (if x > inputRange ! (n - 1)
                 then (inputRange ! (n - 2), inputRange ! (n - 1),
                       outputRange ! (n - 2), outputRange ! (n - 1))
                 else (case narrowLoop x inputRange outputRange of
                         Some seg \<Rightarrow> seg
                       | None \<Rightarrow> first))
              else first)
       in Some (internalInterpolate x narrowed))"

section \<open>Double-precision arithmetic\<close>

text \<open>
  JavaScript numbers are IEEE 754 binary64 values: a decimal literal, and the exact result
  of every subtraction and multiplication, is rounded to the nearest number with a 53-bit
  significand, ties going to the even significand. \<open>exponentOf\<close> finds the binary
  exponent by halving or doubling (never below -1022, where the subnormal numbers
  start), \<open>toDouble\<close> rounds at that exponent. Overflow to infinity is left out: every
  magnitude that occurs below is less than 2.
\<close>

fun normalize :: "nat \<Rightarrow> real \<Rightarrow> int \<Rightarrow> int" where
  "normalize 0 x e = e"
| "normalize (Suc n) x e =
    (if 2 \<le> x then normalize n (x / 2) (e + 1)
     else if x < 1 \<and> - 1022 < e then normalize n (x * 2) (e - 1)
     else e)"

definition exponentOf :: "real \<Rightarrow> int" where
  "exponentOf x = normalize 2100 \<bar>x\<bar> 0"

definition roundHalfEven :: "real \<Rightarrow> int" where
  "roundHalfEven x =
    (let f = \<lfloor>x\<rfloor>; r = x - of_int f
     in if r < 1 / 2 then f else if 1 / 2 < r then f + 1
        else if even f then f else f + 1)"

definition toDouble :: "real \<Rightarrow> real" where
  "toDouble x =
    (let u = 2 powi (exponentOf x - 52)
     in of_int (roundHalfEven (x / u)) * u)"

definition dsub :: "real \<Rightarrow> real \<Rightarrow> real" where
  "dsub a b = toDouble (a - b)"

definition dmul :: "real \<Rightarrow> real \<Rightarrow> real" where
  "dmul a b = toDouble (a * b)"

section \<open>The card transform of PosterCard\<close>

text \<open>
  \<open>shadowOpacityOf\<close> is line 163, \<^verbatim>\<open>0.35 * (1.2 - Math.min(scale, 1.2))\<close>, on a scale
  that is a double. \<open>animatedStyle\<close> applies it to the double nearest to the interpolated
  scale.
\<close>

definition shadowOpacityOf :: "real \<Rightarrow> real" where
  "shadowOpacityOf s = dmul (toDouble 0.35) (dsub (toDouble 1.2) (min s (toDouble 1.2)))"

record cardStyle =
  scale :: real
  translateY :: real
  borderColorAlpha :: real
  shadowOpacity :: real

definition leftEdge :: "real \<Rightarrow> real" where
  "leftEdge index = index * (CARD_WIDTH + CARD_SPACING) + LEFT_PADDING"

definition distanceToLeft :: "real \<Rightarrow> real \<Rightarrow> real" where
  "distanceToLeft index scrollX = leftEdge index - scrollX"

definition cardScale :: "real \<Rightarrow> real \<Rightarrow> real option" where
  "cardScale index scrollX =
    interpolate \<bar>distanceToLeft index scrollX\<bar>
      [0, CARD_WIDTH, CARD_WIDTH * 2] [1.05, 0.95, 0.9]"

definition cardTranslateY :: "real \<Rightarrow> real \<Rightarrow> real option" where
  "cardTranslateY index scrollX =
    interpolate \<bar>distanceToLeft index scrollX\<bar>
      [0, CARD_WIDTH, CARD_WIDTH * 2] [- 6, 0, 4]"

definition cardBorderOpacity :: "real \<Rightarrow> real \<Rightarrow> real option" where
  "cardBorderOpacity index scrollX =
    interpolate \<bar>distanceToLeft index scrollX\<bar>
      [0, CARD_WIDTH * 0.75, CARD_WIDTH * 1.5] [1, 0.35, 0.15]"

definition animatedStyle :: "real \<Rightarrow> real \<Rightarrow> cardStyle option" where
  "animatedStyle index scrollX =
    (case cardScale index scrollX of
       None \<Rightarrow> None
     | Some sc \<Rightarrow>
        (case cardTranslateY index scrollX of
           None \<Rightarrow> None
         | Some ty \<Rightarrow>
            (case cardBorderOpacity index scrollX of
               None \<Rightarrow> None
             | Some borderOpacity \<Rightarrow>
                 Some \<lparr> scale = sc, translateY = ty,
                        borderColorAlpha = 0.8 * borderOpacity,
                        shadowOpacity = shadowOpacityOf (toDouble sc) \<rparr>)))"

section \<open>The screen: local state and event handlers\<close>

text \<open>
  The state of \<^verbatim>\<open>PosterGeneratorScreen\<close>: the three \<^verbatim>\<open>useState\<close> cells, the shared
  value \<^verbatim>\<open>scrollX\<close>, and the module-level array \<^verbatim>\<open>POSTER_TYPES\<close> the carousel is
  rendered from.
\<close>

record screen =
  catalog :: "PosterType list"
  activeTab :: nat
  prompt :: string
  scrollX :: real
  selected :: nat

definition initialScreen :: screen where
  "initialScreen =
    \<lparr> catalog = POSTER_TYPES,
      activeTab = 0,
      prompt = ''stunning promotional image of a deliciously decorated cake, emphasiszing its layers, frosting, and toppings in an enticing setting.'',
      scrollX = 0,
      selected = 0 \<rparr>"

definition setActiveTab :: "nat \<Rightarrow> screen \<Rightarrow> screen" where
  "setActiveTab i s = s\<lparr>activeTab := i\<rparr>"

definition setPrompt :: "string \<Rightarrow> screen \<Rightarrow> screen" where
  "setPrompt t s = s\<lparr>prompt := t\<rparr>"

definition setSelected :: "nat \<Rightarrow> screen \<Rightarrow> screen" where
  "setSelected i s = s\<lparr>selected := i\<rparr>"

text \<open>
  \<^verbatim>\<open>SegmentedControl\<close> maps over its two labels: the \<open>i\<close>-th pressable is highlighted
  when \<open>i = activeIndex\<close> and calls \<open>onChange i\<close> when pressed.
\<close>

definition segmentLabels :: "string list" where
  "segmentLabels = [''Smart script'', ''Advanced script'']"

definition SegmentedControl :: "nat \<Rightarrow> (string \<times> bool) list" where
  "SegmentedControl activeIndex =
    map (\<lambda>i. (segmentLabels ! i, i = activeIndex)) [0..<length segmentLabels]"

definition segmentOnPress :: "(nat \<Rightarrow> screen \<Rightarrow> screen) \<Rightarrow> (screen \<Rightarrow> screen) list" where
  "segmentOnPress onChange = map (\<lambda>i. onChange i) [0..<length segmentLabels]"

text \<open>
  The carousel maps over the catalog: the card at position \<open>i\<close> gets
  \<^verbatim>\<open>onPress={() => setSelected(i)}\<close>.
\<close>

definition cardOnPress :: "screen \<Rightarrow> (screen \<Rightarrow> screen) list" where
  "cardOnPress s = map (\<lambda>i. setSelected i) [0..<length (catalog s)]"

definition promptInputValue :: "screen \<Rightarrow> string" where
  "promptInputValue s = prompt s"

text \<open>
  The events the host platform can deliver. A press on a segment or a card that is not
  rendered cannot happen: \<open>handle\<close> returns \<open>None\<close> for it. The Generate button is given
  the empty handler \<^verbatim>\<open>() => {}\<close>; the two rows of \<^verbatim>\<open>CombinedList\<close> have no
  \<^verbatim>\<open>onPress\<close> at all.
\<close>

datatype event =
    SegmentPress nat
  | CardPress nat
  | ChangeText string
  | Scroll real
  | MomentumEnd real
  | GeneratePress
  | SizeRowPress
  | CategoryRowPress

fun handle :: "event \<Rightarrow> screen \<Rightarrow> screen option" where
  "handle (SegmentPress i) s =
    (if i < length (segmentOnPress setActiveTab)
     then Some ((segmentOnPress setActiveTab ! i) s) else None)"
| "handle (CardPress i) s =
    (if i < length (cardOnPress s) then Some ((cardOnPress s ! i) s) else None)"
| "handle (ChangeText t) s = Some (setPrompt t s)"
| "handle (Scroll x) s = Some (s\<lparr>scrollX := x\<rparr>)"
| "handle (MomentumEnd x) s = Some (s\<lparr>scrollX := x\<rparr>)"
| "handle GeneratePress s = Some s"
| "handle SizeRowPress s = Some s"
| "handle CategoryRowPress s = Some s"

fun run :: "event list \<Rightarrow> screen \<Rightarrow> screen option" where
  "run [] s = Some s"
| "run (e # es) s = (case handle e s of None \<Rightarrow> None | Some s' \<Rightarrow> run es s')"

section \<open>Rounding to a double is monotone\<close>

lemma normalize_exact:
  assumes "2 powi k \<le> x" and "x < 2 powi (k + 1)" and "nat \<bar>k\<bar> < n"
    and "- 1022 \<le> e + k"
  shows "normalize n x e = e + k"
  using assms
proof (induction n arbitrary: x e k)
  case 0
  then show ?case by simp
next
  case (Suc n)
  consider (pos) "0 < k" | (zero) "k = 0" | (neg) "k < 0"
    by linarith
  then show ?case
  proof cases
    case pos
    have "(2::real) powi 1 \<le> 2 powi k"
      using pos by (intro power_int_increasing) auto
    with Suc.prems(1) have big: "2 \<le> x"
      by simp
    have a: "2 powi (k - 1) \<le> x / 2"
      using Suc.prems(1) by (simp add: power_int_diff)
    have b: "x / 2 < 2 powi (k - 1 + 1)"
      using Suc.prems(2) by (simp add: power_int_add)
    have "normalize n (x / 2) (e + 1) = e + 1 + (k - 1)"
      using pos Suc.prems(3,4) by (intro Suc.IH [OF a b]) auto
    with big show ?thesis by simp
  next
    case zero
    with Suc.prems(1,2) show ?thesis by simp
  next
    case neg
    have "(2::real) powi (k + 1) \<le> 2 powi 0"
      using neg by (intro power_int_increasing) auto
    with Suc.prems(2) have small: "x < 1"
      by simp
    then have nbig: "\<not> 2 \<le> x"
      by simp
    have low: "- 1022 < e"
      using neg Suc.prems(4) by linarith
    have a: "2 powi (k + 1) \<le> x * 2"
      using Suc.prems(1) by (simp add: power_int_add)
    have b: "x * 2 < 2 powi (k + 1 + 1)"
      using Suc.prems(2) by (simp add: power_int_add)
    have "normalize n (x * 2) (e - 1) = e - 1 + (k + 1)"
      using neg Suc.prems(3,4) by (intro Suc.IH [OF a b]) auto
    with small nbig low show ?thesis by simp
  qed
qed

lemma exponentOf_exact:
  assumes "2 powi k \<le> x" and "x < 2 powi (k + 1)" and "- 1022 \<le> k" and "k \<le> 1023"
  shows "exponentOf x = k"
proof -
  have "0 < (2::real) powi k" by simp
  with assms(1) have "0 < x" by linarith
  then have "\<bar>x\<bar> = x" by simp
  moreover have "normalize 2100 x 0 = 0 + k"
    using assms by (intro normalize_exact) auto
  ultimately show ?thesis by (simp add: exponentOf_def)
qed

lemma toDouble_binade:
  assumes "2 powi k \<le> x" and "x < 2 powi (k + 1)" and "- 1022 \<le> k" and "k \<le> 1023"
  shows "toDouble x = of_int (roundHalfEven (x / 2 powi (k - 52))) * 2 powi (k - 52)"
  by (simp add: toDouble_def exponentOf_exact [OF assms] Let_def)

lemma roundHalfEven_bounds: "\<lfloor>x\<rfloor> \<le> roundHalfEven x \<and> roundHalfEven x \<le> \<lfloor>x\<rfloor> + 1"
  by (simp add: roundHalfEven_def Let_def)

lemma roundHalfEven_of_int: "roundHalfEven (of_int n) = n"
  by (simp add: roundHalfEven_def Let_def)

lemma roundHalfEven_mono:
  assumes "x \<le> y"
  shows "roundHalfEven x \<le> roundHalfEven y"
proof (cases "\<lfloor>x\<rfloor> = \<lfloor>y\<rfloor>")
  case True
  with assms show ?thesis
    by (auto simp: roundHalfEven_def Let_def)
next
  case False
  with assms have "\<lfloor>x\<rfloor> + 1 \<le> \<lfloor>y\<rfloor>"
    using floor_mono [of x y] by linarith
  with roundHalfEven_bounds [of x] roundHalfEven_bounds [of y] show ?thesis
    by linarith
qed

lemma toDouble_in_binade:
  assumes "2 powi k \<le> x" and "x < 2 powi (k + 1)" and "- 1022 \<le> k" and "k \<le> 1023"
  shows "2 powi k \<le> toDouble x \<and> toDouble x \<le> 2 powi (k + 1)"
proof -
  let ?u = "(2::real) powi (k - 52)"
  let ?r = "roundHalfEven (x / ?u)"
  have u: "0 < ?u" by simp
  have lo: "of_int (2 ^ 52) \<le> x / ?u"
    using assms(1) by (simp add: power_int_diff field_simps)
  have hi: "x / ?u \<le> of_int (2 ^ 53)"
    using assms(2) by (simp add: power_int_diff power_int_add field_simps)
  from roundHalfEven_mono [OF lo] have "2 ^ 52 \<le> ?r"
    by (simp only: roundHalfEven_of_int)
  then have "(2::real) ^ 52 \<le> of_int ?r"
    by (metis of_int_le_iff of_int_numeral of_int_power)
  then have a: "2 ^ 52 * ?u \<le> of_int ?r * ?u"
    using u by (rule mult_right_mono [OF _ less_imp_le])
  from roundHalfEven_mono [OF hi] have "?r \<le> 2 ^ 53"
    by (simp only: roundHalfEven_of_int)
  then have "of_int ?r \<le> (2::real) ^ 53"
    by (metis of_int_le_iff of_int_numeral of_int_power)
  then have b: "of_int ?r * ?u \<le> 2 ^ 53 * ?u"
    using u by (rule mult_right_mono [OF _ less_imp_le])
  have "2 powi k = 2 ^ 52 * ?u"
    by (simp add: power_int_diff)
  also note a
  finally have below: "2 powi k \<le> of_int ?r * ?u" .
  note b
  also have "2 ^ 53 * ?u = 2 powi (k + 1)"
    by (simp add: power_int_diff power_int_add)
  finally have above: "of_int ?r * ?u \<le> 2 powi (k + 1)" .
  from below above show ?thesis
    unfolding toDouble_binade [OF assms] by (rule conjI)
qed

lemma toDouble_mono:
  assumes x: "2 powi k \<le> x" "x < 2 powi (k + 1)" "- 1022 \<le> k" "k \<le> 1023"
    and y: "2 powi m \<le> y" "y < 2 powi (m + 1)" "- 1022 \<le> m" "m \<le> 1023"
    and le: "x \<le> y"
  shows "toDouble x \<le> toDouble y"
proof -
  have "(2::real) powi k < 2 powi (m + 1)"
    using x(1) y(2) le by linarith
  have "k < m + 1"
  proof (rule ccontr)
    assume "\<not> k < m + 1"
    then have "(2::real) powi (m + 1) \<le> 2 powi k"
      by (intro power_int_increasing) auto
    with \<open>(2::real) powi k < 2 powi (m + 1)\<close> show False
      by linarith
  qed
  then consider (same) "k = m" | (below) "k + 1 \<le> m"
    by linarith
  then show ?thesis
  proof cases
    case same
    let ?u = "(2::real) powi (k - 52)"
    have "x / ?u \<le> y / ?u"
      using le by (simp add: divide_right_mono)
    from roundHalfEven_mono [OF this]
    have "of_int (roundHalfEven (x / ?u)) * ?u \<le> of_int (roundHalfEven (y / ?u)) * ?u"
      by simp
    then show ?thesis
      using toDouble_binade [OF x] toDouble_binade [OF y] same by simp
  next
    case below
    have "(2::real) powi (k + 1) \<le> 2 powi m"
      using below by (intro power_int_increasing) auto
    with toDouble_in_binade [OF x] toDouble_in_binade [OF y] show ?thesis
      by linarith
  qed
qed


lemma binade_exists:
  fixes x :: real
  assumes "2 powi (- 1022) \<le> x" and "x < 2 powi 1024"
  obtains k where "2 powi k \<le> x" and "x < 2 powi (k + 1)" and "- 1022 \<le> k" and "k \<le> 1023"
proof -
  have "0 < (2::real) powi (- 1022)" by (rule zero_less_power_int) simp
  with assms(1) have pos: "0 < x" by linarith
  define k where "k = \<lfloor>log 2 x\<rfloor>"
  have "of_int k \<le> log 2 x" and "log 2 x < of_int (k + 1)"
    unfolding k_def by linarith+
  then have "2 powr of_int k \<le> 2 powr log 2 x" and "2 powr log 2 x < 2 powr of_int (k + 1)"
    by (simp_all del: of_int_add)
  moreover have "2 powr of_int k = (2::real) powi k"
    by (rule powr_real_of_int') simp_all
  moreover have "2 powr of_int (k + 1) = (2::real) powi (k + 1)"
    by (rule powr_real_of_int') simp_all
  moreover have "2 powr log 2 x = x"
    using pos by simp
  ultimately have lo: "2 powi k \<le> x" and hi: "x < 2 powi (k + 1)"
    by (simp_all only:)
  have "k < 1024"
  proof (rule ccontr)
    assume "\<not> k < 1024"
    then have "(2::real) powi 1024 \<le> 2 powi k"
      by (intro power_int_increasing) auto
    with lo assms(2) show False by linarith
  qed
  moreover have "- 1022 < k + 1"
  proof (rule ccontr)
    assume "\<not> - 1022 < k + 1"
    then have "(2::real) powi (k + 1) \<le> 2 powi (- 1022)"
      by (intro power_int_increasing) auto
    with hi assms(1) show False by linarith
  qed
  ultimately show thesis
    using lo hi by (intro that [of k]) auto
qed

lemma toDouble_mono_pos:
  fixes x y :: real
  assumes "2 powi (- 1022) \<le> x" and "x \<le> y" and "y < 2 powi 1024"
  shows "toDouble x \<le> toDouble y"
proof -
  from assms have "x < 2 powi 1024" and "2 powi (- 1022) \<le> y"
    by linarith+
  with assms obtain k m where
    "2 powi k \<le> x" "x < 2 powi (k + 1)" "- 1022 \<le> k" "k \<le> 1023"
    "2 powi m \<le> y" "y < 2 powi (m + 1)" "- 1022 \<le> m" "m \<le> 1023"
    by (meson binade_exists)
  then show ?thesis
    using assms(2) by (rule toDouble_mono)
qed

lemma toDouble_eval:
  assumes "2 powi k \<le> x" and "x < 2 powi (k + 1)" and "- 1022 \<le> k" and "k \<le> 1023"
    and "roundHalfEven (x / 2 powi (k - 52)) = n" and "of_int n * 2 powi (k - 52) = y"
  shows "toDouble x = y"
  using toDouble_binade [OF assms(1-4)] assms(5,6) by simp

lemma roundHalfEven_eval:
  assumes "\<lfloor>x\<rfloor> = f"
  shows "roundHalfEven x =
    (if x - of_int f < 1 / 2 then f else if 1 / 2 < x - of_int f then f + 1
     else if even f then f else f + 1)"
  using assms by (simp add: roundHalfEven_def Let_def)

lemma double_1_2: "toDouble 1.2 = 5404319552844595 / 4503599627370496"
  by (rule toDouble_eval [where k = 0]) (simp_all add: roundHalfEven_def Let_def)

lemma double_0_35: "toDouble 0.35 = 3152519739159347 / 9007199254740992"
  by (rule toDouble_eval [where k = "- 2"]) (simp_all add: roundHalfEven_def Let_def)

lemma double_1_05: "toDouble 1.05 = 4728779608739021 / 4503599627370496"
  by (rule toDouble_eval [where k = 0]) (simp_all add: roundHalfEven_def Let_def)

lemma double_0_9: "toDouble 0.9 = 8106479329266893 / 9007199254740992"
  by (rule toDouble_eval [where k = "- 1"]) (simp_all add: roundHalfEven_def Let_def)

lemma shadow_at_1_05:
  "shadowOpacityOf (4728779608739021 / 4503599627370496) = 1891511843495607 / 36028797018963968"
proof -
  have d: "toDouble (5404319552844595 / 4503599627370496 - 4728779608739021 / 4503599627370496)
      = 337769972052787 / 2251799813685248"
    by (rule toDouble_eval [where k = "- 3"]) (simp_all add: roundHalfEven_def Let_def)
  have m: "toDouble (3152519739159347 / 9007199254740992 * (337769972052787 / 2251799813685248))
      = 1891511843495607 / 36028797018963968"
    by (rule toDouble_eval [where k = "- 5"]) (simp_all add: roundHalfEven_def Let_def)
  have mn: "min (4728779608739021 / 4503599627370496 :: real)
      (5404319552844595 / 4503599627370496) = 4728779608739021 / 4503599627370496"
    by simp
  show ?thesis
    unfolding shadowOpacityOf_def double_1_2 double_0_35 dsub_def dmul_def mn d m
    by (rule refl)
qed


lemma toDouble_mono_near:
  fixes x y :: real
  assumes "1 / 1024 \<le> x" and "x \<le> y" and "y < 1024"
  shows "toDouble x \<le> toDouble y"
proof -
  have "(2::real) powi (- 1022) \<le> 2 powi (- 10)"
    by (intro power_int_increasing) auto
  moreover have "(2::real) powi (- 10) = 1 / 1024"
    by (simp add: power_int_minus field_simps)
  ultimately have lo: "2 powi (- 1022) \<le> x"
    using assms(1) by linarith
  have "(2::real) powi 10 \<le> 2 powi 1024"
    by (intro power_int_increasing) auto
  moreover have "(2::real) powi 10 = 1024"
    by simp
  ultimately have hi: "y < 2 powi 1024"
    using assms(3) by linarith
  from lo assms(2) hi show ?thesis
    by (rule toDouble_mono_pos)
qed

lemma toDouble_1: "toDouble 1 = 1"
  by (rule toDouble_eval [where k = 0]) (simp_all add: roundHalfEven_def Let_def)

lemma shadow_at_0_9:
  "shadowOpacityOf (8106479329266893 / 9007199254740992) = 7566047373982431 / 72057594037927936"
proof -
  have d: "toDouble (5404319552844595 / 4503599627370496 - 8106479329266893 / 9007199254740992)
      = 2702159776422297 / 9007199254740992"
    by (rule toDouble_eval [where k = "- 2"]) (simp_all add: roundHalfEven_def Let_def)
  have m: "toDouble (3152519739159347 / 9007199254740992 * (2702159776422297 / 9007199254740992))
      = 7566047373982431 / 72057594037927936"
    by (rule toDouble_eval [where k = "- 4"]) (simp_all add: roundHalfEven_def Let_def)
  have mn: "min (8106479329266893 / 9007199254740992 :: real)
      (5404319552844595 / 4503599627370496) = 8106479329266893 / 9007199254740992"
    by simp
  show ?thesis
    unfolding shadowOpacityOf_def double_1_2 double_0_35 dsub_def dmul_def mn d m
    by (rule refl)
qed

lemma shadow_at_1:
  "shadowOpacityOf 1 = 2522015791327477 / 36028797018963968"
proof -
  have d: "toDouble (5404319552844595 / 4503599627370496 - 1)
      = 900719925474099 / 4503599627370496"
    by (rule toDouble_eval [where k = "- 3"]) (simp_all add: roundHalfEven_def Let_def)
  have m: "toDouble (3152519739159347 / 9007199254740992 * (900719925474099 / 4503599627370496))
      = 2522015791327477 / 36028797018963968"
    by (rule toDouble_eval [where k = "- 4"]) (simp_all add: roundHalfEven_def Let_def)
  have mn: "min (1 :: real) (5404319552844595 / 4503599627370496) = 1"
    by simp
  show ?thesis
    unfolding shadowOpacityOf_def double_1_2 double_0_35 dsub_def dmul_def mn d m
    by (rule refl)
qed

lemma toDouble_scale_range:
  assumes "0.9 \<le> sc" and "sc \<le> 1.05"
  shows "toDouble 0.9 \<le> toDouble sc \<and> toDouble sc \<le> toDouble 1.05"
proof
  show "toDouble 0.9 \<le> toDouble sc"
    using assms by (intro toDouble_mono_near) auto
  show "toDouble sc \<le> toDouble 1.05"
    using assms by (intro toDouble_mono_near) auto
qed

lemma shadowOpacityOf_range:
  assumes lo: "toDouble 0.9 \<le> s" and hi: "s \<le> toDouble 1.05"
  shows "min s (toDouble 1.2) = s
    \<and> 1891511843495607 / 36028797018963968 \<le> shadowOpacityOf s
    \<and> shadowOpacityOf s \<le> 7566047373982431 / 72057594037927936"
proof -
  let ?A = "5404319552844595 / 4503599627370496 :: real"
  let ?C = "3152519739159347 / 9007199254740992 :: real"
  let ?H = "4728779608739021 / 4503599627370496 :: real"
  let ?L = "8106479329266893 / 9007199254740992 :: real"
  from lo hi have s: "?L \<le> s" "s \<le> ?H"
    by (simp_all only: double_0_9 double_1_05)
  then have mn: "min s ?A = s"
    by simp
  have so: "shadowOpacityOf s = toDouble (?C * toDouble (?A - s))"
    unfolding shadowOpacityOf_def double_1_2 double_0_35 dsub_def dmul_def mn
    by (rule refl)
  have soH: "toDouble (?C * toDouble (?A - ?H)) = 1891511843495607 / 36028797018963968"
    using shadow_at_1_05
    unfolding shadowOpacityOf_def double_1_2 double_0_35 dsub_def dmul_def
    by simp
  have soL: "toDouble (?C * toDouble (?A - ?L)) = 7566047373982431 / 72057594037927936"
    using shadow_at_0_9
    unfolding shadowOpacityOf_def double_1_2 double_0_35 dsub_def dmul_def
    by simp
  have dH: "toDouble (?A - ?H) \<le> toDouble (?A - s)"
    using s by (intro toDouble_mono_near) auto
  have dL: "toDouble (?A - s) \<le> toDouble (?A - ?L)"
    using s by (intro toDouble_mono_near) auto
  have dHv: "toDouble (?A - ?H) = 337769972052787 / 2251799813685248"
    by (rule toDouble_eval [where k = "- 3"]) (simp_all add: roundHalfEven_def Let_def)
  have dLv: "toDouble (?A - ?L) = 2702159776422297 / 9007199254740992"
    by (rule toDouble_eval [where k = "- 2"]) (simp_all add: roundHalfEven_def Let_def)
  have "toDouble (?C * toDouble (?A - ?H)) \<le> toDouble (?C * toDouble (?A - s))"
    using dH dL unfolding dHv dLv by (intro toDouble_mono_near) auto
  moreover have "toDouble (?C * toDouble (?A - s)) \<le> toDouble (?C * toDouble (?A - ?L))"
    using dH dL unfolding dHv dLv by (intro toDouble_mono_near) auto
  ultimately show ?thesis
    unfolding so soH soL using mn double_1_2 by simp
qed

section \<open>Closed forms of the three interpolations\<close>

lemma interpolate3:
  "interpolate x [a, b, c] [p, q, r] =
     Some (internalInterpolate x
        (if x > c then (b, c, q, r) else if x \<le> b then (a, b, p, q) else (b, c, q, r)))"
  by (simp add: interpolate_def)

lemma cardScale_closed:
  "cardScale index x = Some
     (let d = \<bar>distanceToLeft index x\<bar> in
      if d \<le> 110 then 1.05 - d / 1100
      else if d \<le> 220 then 0.95 - (d - 110) / 2200 else 0.9)"
  unfolding cardScale_def interpolate3 CARD_WIDTH_def
  by (simp add: internalInterpolate_def Let_def field_simps)

lemma cardTranslateY_closed:
  "cardTranslateY index x = Some
     (let d = \<bar>distanceToLeft index x\<bar> in
      if d \<le> 110 then - 6 + d * 6 / 110
      else if d \<le> 220 then (d - 110) * 4 / 110 else 4)"
  unfolding cardTranslateY_def interpolate3 CARD_WIDTH_def
  by (simp add: internalInterpolate_def Let_def field_simps)

lemma cardBorderOpacity_closed:
  "cardBorderOpacity index x = Some
     (let d = \<bar>distanceToLeft index x\<bar> in
      if d \<le> 82.5 then 1 - d * 0.65 / 82.5
      else if d \<le> 165 then 0.35 - (d - 82.5) * 0.2 / 82.5 else 0.15)"
  unfolding cardBorderOpacity_def interpolate3 CARD_WIDTH_def
  by (simp add: internalInterpolate_def Let_def field_simps)

lemma animatedStyle_Some:
  assumes "cardScale index x = Some sc"
    and "cardTranslateY index x = Some ty"
    and "cardBorderOpacity index x = Some bo"
  shows "animatedStyle index x =
    Some \<lparr> scale = sc, translateY = ty, borderColorAlpha = 0.8 * bo,
           shadowOpacity = shadowOpacityOf (toDouble sc) \<rparr>"
  using assms by (simp add: animatedStyle_def)

lemma cardScale_range:
  assumes "cardScale index x = Some sc"
  shows "0.9 \<le> sc \<and> sc \<le> 1.05"
proof -
  have "0 \<le> \<bar>distanceToLeft index x\<bar>" by simp
  with assms show ?thesis
    unfolding cardScale_closed Let_def by (auto simp: field_simps split: if_splits)
qed

lemma cardTranslateY_range:
  assumes "cardTranslateY index x = Some ty"
  shows "- 6 \<le> ty \<and> ty \<le> 4"
proof -
  have "0 \<le> \<bar>distanceToLeft index x\<bar>" by simp
  with assms show ?thesis
    unfolding cardTranslateY_closed Let_def by (auto simp: field_simps split: if_splits)
qed

lemma cardBorderOpacity_range:
  assumes "cardBorderOpacity index x = Some bo"
  shows "0.15 \<le> bo \<and> bo \<le> 1"
proof -
  have "0 \<le> \<bar>distanceToLeft index x\<bar>" by simp
  with assms show ?thesis
    unfolding cardBorderOpacity_closed Let_def by (auto simp: field_simps split: if_splits)
qed

lemma cardScale_mono:
  assumes "\<bar>distanceToLeft index x1\<bar> \<le> \<bar>distanceToLeft index x2\<bar>"
    and "cardScale index x1 = Some sc1" and "cardScale index x2 = Some sc2"
  shows "sc2 \<le> sc1"
proof -
  have "0 \<le> \<bar>distanceToLeft index x1\<bar>" by simp
  with assms show ?thesis
    unfolding cardScale_closed Let_def by (auto simp: field_simps split: if_splits)
qed

lemma cardTranslateY_mono:
  assumes "\<bar>distanceToLeft index x1\<bar> \<le> \<bar>distanceToLeft index x2\<bar>"
    and "cardTranslateY index x1 = Some ty1" and "cardTranslateY index x2 = Some ty2"
  shows "ty1 \<le> ty2"
proof -
  have "0 \<le> \<bar>distanceToLeft index x1\<bar>" by simp
  with assms show ?thesis
    unfolding cardTranslateY_closed Let_def by (auto simp: field_simps split: if_splits)
qed

lemma cardBorderOpacity_mono:
  assumes "\<bar>distanceToLeft index x1\<bar> \<le> \<bar>distanceToLeft index x2\<bar>"
    and "cardBorderOpacity index x1 = Some bo1" and "cardBorderOpacity index x2 = Some bo2"
  shows "bo2 \<le> bo1"
proof -
  have "0 \<le> \<bar>distanceToLeft index x1\<bar>" by simp
  with assms show ?thesis
    unfolding cardBorderOpacity_closed Let_def by (auto simp: field_simps split: if_splits)
qed

lemma cardScale_plateau:
  assumes "2 * CARD_WIDTH \<le> \<bar>distanceToLeft index x\<bar>"
  shows "cardScale index x = Some 0.9"
  using assms unfolding cardScale_closed Let_def CARD_WIDTH_def
  by (auto simp: field_simps)

lemma cardTranslateY_plateau:
  assumes "2 * CARD_WIDTH \<le> \<bar>distanceToLeft index x\<bar>"
  shows "cardTranslateY index x = Some 4"
  using assms unfolding cardTranslateY_closed Let_def CARD_WIDTH_def
  by (auto simp: field_simps)

lemma cardBorderOpacity_plateau:
  assumes "1.5 * CARD_WIDTH \<le> \<bar>distanceToLeft index x\<bar>"
  shows "cardBorderOpacity index x = Some 0.15"
  using assms unfolding cardBorderOpacity_closed Let_def CARD_WIDTH_def
  by (auto simp: field_simps)

lemma distanceToLeft_eq: "distanceToLeft index x = index * 124 + 18 - x"
  by (simp add: distanceToLeft_def leftEdge_def CARD_WIDTH_def CARD_SPACING_def
      LEFT_PADDING_def)

lemmas card_eval =
  animatedStyle_def cardScale_closed cardTranslateY_closed cardBorderOpacity_closed
  distanceToLeft_eq CARD_WIDTH_def Let_def

section \<open>Range of the card transform\<close>

text \<open>
  C1. For every card index and every horizontal scroll offset the card transform is
  defined, its scale lies in the closed interval from 0.9 to 1.05, and its vertical
  translation lies in the closed interval from -6 to 4.
\<close>

theorem card_transform_range:
  "\<exists>st. animatedStyle index x = Some st
     \<and> 0.9 \<le> scale st \<and> scale st \<le> 1.05
     \<and> - 6 \<le> translateY st \<and> translateY st \<le> 4"
proof -
  obtain sc where sc: "cardScale index x = Some sc"
    by (simp add: cardScale_closed)
  obtain ty where ty: "cardTranslateY index x = Some ty"
    by (simp add: cardTranslateY_closed)
  obtain bo where bo: "cardBorderOpacity index x = Some bo"
    by (simp add: cardBorderOpacity_closed)
  from cardScale_range [OF sc] cardTranslateY_range [OF ty]
    animatedStyle_Some [OF sc ty bo]
  show ?thesis by simp
qed

text \<open>The second card (index 1) with the carousel scrolled to 87: the distance is 55.\<close>

theorem card_transform_range_witness:
  "animatedStyle 1 87 =
      Some \<lparr> scale = 1, translateY = - 3, borderColorAlpha = 34 / 75,
             shadowOpacity = 2522015791327477 / 36028797018963968 \<rparr>
   \<and> (\<exists>st. animatedStyle 1 87 = Some st
     \<and> 0.9 \<le> scale st \<and> scale st \<le> 1.05
     \<and> - 6 \<le> translateY st \<and> translateY st \<le> 4)"
proof -
  have "animatedStyle 1 87 =
      Some \<lparr> scale = 1, translateY = - 3, borderColorAlpha = 34 / 75,
             shadowOpacity = 2522015791327477 / 36028797018963968 \<rparr>"
    by (simp add: card_eval toDouble_1 shadow_at_1)
  with card_transform_range [of 1 87] show ?thesis by blast
qed

section \<open>Monotonicity in the distance\<close>

text \<open>
  C2. For a fixed card index, scale, vertical offset and border opacity are monotonic in
  the absolute distance between the card's left edge and the scroll offset: when the
  distance at offset \<open>x1\<close> is at most the distance at offset \<open>x2\<close>, the scale at \<open>x2\<close> is
  at most the scale at \<open>x1\<close> and at least 0.9, the vertical offset at \<open>x2\<close> is at least the
  one at \<open>x1\<close> and at most 4, and the border opacity at \<open>x2\<close> is at most the one at \<open>x1\<close>
  and at least 0.15. From distance \<open>2 * CARD_WIDTH\<close> on, scale and vertical offset are
  the constants 0.9 and 4; from distance \<open>1.5 * CARD_WIDTH\<close> on, border opacity is the
  constant 0.15.
\<close>

theorem card_transform_monotone:
  assumes "\<bar>distanceToLeft index x1\<bar> \<le> \<bar>distanceToLeft index x2\<bar>"
  shows "\<exists>st1 st2 bo1 bo2.
      animatedStyle index x1 = Some st1 \<and> animatedStyle index x2 = Some st2
    \<and> cardBorderOpacity index x1 = Some bo1 \<and> cardBorderOpacity index x2 = Some bo2
    \<and> 0.9 \<le> scale st2 \<and> scale st2 \<le> scale st1
    \<and> translateY st1 \<le> translateY st2 \<and> translateY st2 \<le> 4
    \<and> 0.15 \<le> bo2 \<and> bo2 \<le> bo1
    \<and> (2 * CARD_WIDTH \<le> \<bar>distanceToLeft index x1\<bar> \<longrightarrow>
          scale st1 = 0.9 \<and> scale st2 = 0.9 \<and> translateY st1 = 4 \<and> translateY st2 = 4)
    \<and> (1.5 * CARD_WIDTH \<le> \<bar>distanceToLeft index x1\<bar> \<longrightarrow> bo1 = 0.15 \<and> bo2 = 0.15)"
proof -
  obtain sc1 where sc1: "cardScale index x1 = Some sc1"
    by (simp add: cardScale_closed)
  obtain sc2 where sc2: "cardScale index x2 = Some sc2"
    by (simp add: cardScale_closed)
  obtain ty1 where ty1: "cardTranslateY index x1 = Some ty1"
    by (simp add: cardTranslateY_closed)
  obtain ty2 where ty2: "cardTranslateY index x2 = Some ty2"
    by (simp add: cardTranslateY_closed)
  obtain bo1 where bo1: "cardBorderOpacity index x1 = Some bo1"
    by (simp add: cardBorderOpacity_closed)
  obtain bo2 where bo2: "cardBorderOpacity index x2 = Some bo2"
    by (simp add: cardBorderOpacity_closed)
  let ?st1 = "\<lparr> scale = sc1, translateY = ty1, borderColorAlpha = 0.8 * bo1,
                 shadowOpacity = shadowOpacityOf (toDouble sc1) \<rparr>"
  let ?st2 = "\<lparr> scale = sc2, translateY = ty2, borderColorAlpha = 0.8 * bo2,
                 shadowOpacity = shadowOpacityOf (toDouble sc2) \<rparr>"
  have st1: "animatedStyle index x1 = Some ?st1"
    by (rule animatedStyle_Some [OF sc1 ty1 bo1])
  have st2: "animatedStyle index x2 = Some ?st2"
    by (rule animatedStyle_Some [OF sc2 ty2 bo2])
  have mono: "sc2 \<le> sc1" "ty1 \<le> ty2" "bo2 \<le> bo1"
    using cardScale_mono [OF assms sc1 sc2] cardTranslateY_mono [OF assms ty1 ty2]
      cardBorderOpacity_mono [OF assms bo1 bo2]
    by simp_all
  have bounds: "0.9 \<le> sc2" "ty2 \<le> 4" "0.15 \<le> bo2"
    using cardScale_range [OF sc2] cardTranslateY_range [OF ty2]
      cardBorderOpacity_range [OF bo2]
    by simp_all
  have flat2: "sc1 = 0.9 \<and> sc2 = 0.9 \<and> ty1 = 4 \<and> ty2 = 4"
    if far: "2 * CARD_WIDTH \<le> \<bar>distanceToLeft index x1\<bar>"
  proof -
    from far assms have far2: "2 * CARD_WIDTH \<le> \<bar>distanceToLeft index x2\<bar>"
      by linarith
    from cardScale_plateau [OF far] cardScale_plateau [OF far2]
      cardTranslateY_plateau [OF far] cardTranslateY_plateau [OF far2]
      sc1 sc2 ty1 ty2
    show ?thesis by simp
  qed
  have flat15: "bo1 = 0.15 \<and> bo2 = 0.15"
    if far: "1.5 * CARD_WIDTH \<le> \<bar>distanceToLeft index x1\<bar>"
  proof -
    from far assms have far2: "1.5 * CARD_WIDTH \<le> \<bar>distanceToLeft index x2\<bar>"
      by linarith
    from cardBorderOpacity_plateau [OF far] cardBorderOpacity_plateau [OF far2] bo1 bo2
    show ?thesis by simp
  qed
  have "0.9 \<le> scale ?st2 \<and> scale ?st2 \<le> scale ?st1
    \<and> translateY ?st1 \<le> translateY ?st2 \<and> translateY ?st2 \<le> 4
    \<and> 0.15 \<le> bo2 \<and> bo2 \<le> bo1
    \<and> (2 * CARD_WIDTH \<le> \<bar>distanceToLeft index x1\<bar> \<longrightarrow>
          scale ?st1 = 0.9 \<and> scale ?st2 = 0.9 \<and> translateY ?st1 = 4 \<and> translateY ?st2 = 4)
    \<and> (1.5 * CARD_WIDTH \<le> \<bar>distanceToLeft index x1\<bar> \<longrightarrow> bo1 = 0.15 \<and> bo2 = 0.15)"
    using mono bounds flat2 flat15 by simp
  with st1 st2 bo1 bo2 show ?thesis by blast
qed

text \<open>
  The first card (left edge at 18): from offset 18 (distance 0) to offset 128 (distance
  110) the scale falls from 1.05 to 0.95; from offset 238 (distance 220) to offset 300
  everything stays on the plateau.
\<close>

theorem card_transform_monotone_witness:
  "\<bar>distanceToLeft 0 18\<bar> \<le> \<bar>distanceToLeft 0 128\<bar>
   \<and> \<bar>distanceToLeft 0 238\<bar> \<le> \<bar>distanceToLeft 0 300\<bar>
   \<and> 2 * CARD_WIDTH \<le> \<bar>distanceToLeft 0 238\<bar>
   \<and> 1.5 * CARD_WIDTH \<le> \<bar>distanceToLeft 0 238\<bar>
   \<and> (\<exists>st1 st2. animatedStyle 0 18 = Some st1 \<and> animatedStyle 0 128 = Some st2
        \<and> scale st1 = 1.05 \<and> scale st2 = 0.95 \<and> scale st2 \<le> scale st1
        \<and> translateY st1 = - 6 \<and> translateY st2 = 0 \<and> translateY st1 \<le> translateY st2)
   \<and> (\<exists>st1 st2. animatedStyle 0 238 = Some st1 \<and> animatedStyle 0 300 = Some st2
        \<and> scale st1 = 0.9 \<and> scale st2 = 0.9 \<and> translateY st1 = 4 \<and> translateY st2 = 4)
   \<and> cardBorderOpacity 0 238 = Some 0.15 \<and> cardBorderOpacity 0 300 = Some 0.15"
proof -
  have near: "\<bar>distanceToLeft 0 18\<bar> \<le> \<bar>distanceToLeft 0 128\<bar>"
    by (simp add: distanceToLeft_eq)
  have far: "\<bar>distanceToLeft 0 238\<bar> \<le> \<bar>distanceToLeft 0 300\<bar>"
    by (simp add: distanceToLeft_eq)
  have far2: "2 * CARD_WIDTH \<le> \<bar>distanceToLeft 0 238\<bar>"
    by (simp add: distanceToLeft_eq CARD_WIDTH_def)
  have far15: "1.5 * CARD_WIDTH \<le> \<bar>distanceToLeft 0 238\<bar>"
    by (simp add: distanceToLeft_eq CARD_WIDTH_def)
  have a18: "animatedStyle 0 18 =
      Some \<lparr> scale = 1.05, translateY = - 6, borderColorAlpha = 0.8,
             shadowOpacity = shadowOpacityOf (toDouble 1.05) \<rparr>"
    by (simp add: card_eval)
  have a128: "animatedStyle 0 128 =
      Some \<lparr> scale = 0.95, translateY = 0, borderColorAlpha = 0.8 * (17 / 60),
             shadowOpacity = shadowOpacityOf (toDouble 0.95) \<rparr>"
    by (simp add: card_eval)
  from card_transform_monotone [OF near] a18 a128
  have first: "\<exists>st1 st2. animatedStyle 0 18 = Some st1 \<and> animatedStyle 0 128 = Some st2
        \<and> scale st1 = 1.05 \<and> scale st2 = 0.95 \<and> scale st2 \<le> scale st1
        \<and> translateY st1 = - 6 \<and> translateY st2 = 0 \<and> translateY st1 \<le> translateY st2"
    by auto
  from card_transform_monotone [OF far]
  obtain st1 st2 bo1 bo2 where
    st: "animatedStyle 0 238 = Some st1" "animatedStyle 0 300 = Some st2"
    and bo: "cardBorderOpacity 0 238 = Some bo1" "cardBorderOpacity 0 300 = Some bo2"
    and flat2: "2 * CARD_WIDTH \<le> \<bar>distanceToLeft 0 238\<bar> \<longrightarrow>
          scale st1 = 0.9 \<and> scale st2 = 0.9 \<and> translateY st1 = 4 \<and> translateY st2 = 4"
    and flat15: "1.5 * CARD_WIDTH \<le> \<bar>distanceToLeft 0 238\<bar> \<longrightarrow> bo1 = 0.15 \<and> bo2 = 0.15"
    by blast
  from flat2 far2
  have v2: "scale st1 = 0.9 \<and> scale st2 = 0.9 \<and> translateY st1 = 4 \<and> translateY st2 = 4"
    by (rule mp)
  from flat15 far15 have v15: "bo1 = 0.15 \<and> bo2 = 0.15"
    by (rule mp)
  from st bo v2 v15
  have second: "(\<exists>st1 st2. animatedStyle 0 238 = Some st1 \<and> animatedStyle 0 300 = Some st2
        \<and> scale st1 = 0.9 \<and> scale st2 = 0.9 \<and> translateY st1 = 4 \<and> translateY st2 = 4)
      \<and> cardBorderOpacity 0 238 = Some 0.15 \<and> cardBorderOpacity 0 300 = Some 0.15"
    by blast
  from near far far2 far15 first second show ?thesis by blast
qed

section \<open>Symmetry and the shadow opacity\<close>

text \<open>
  C10. The card transform depends only on the absolute value of the signed distance
  between the card's left edge and the scroll offset: two scroll offsets at equal
  absolute distance (in particular at equal distances on opposite sides of the left
  edge) give the same scale, vertical translation, border colour alpha, shadow opacity
  and border opacity. The scale never exceeds 1.05, so the minimum of the scale and 1.2
  is the scale itself and the shadow opacity is \<open>0.35 * (1.2 - scale)\<close> in double
  arithmetic. It is at most 0.105 and at least 1891511843495607 / 2^55 (the double
  printed as 0.05249999999999996), the value it takes at distance 0. The same holds of
  line 163 for every scale between the doubles 0.9 and 1.05, however the interpolation
  has rounded it.
\<close>

theorem card_transform_symmetric:
  assumes "\<bar>distanceToLeft index x1\<bar> = \<bar>distanceToLeft index x2\<bar>"
  shows "animatedStyle index x1 = animatedStyle index x2
    \<and> cardBorderOpacity index x1 = cardBorderOpacity index x2
    \<and> (\<exists>st. animatedStyle index x1 = Some st
         \<and> scale st \<le> 1.05
         \<and> min (toDouble (scale st)) (toDouble 1.2) = toDouble (scale st)
         \<and> shadowOpacity st
             = dmul (toDouble 0.35) (dsub (toDouble 1.2) (toDouble (scale st)))
         \<and> 1891511843495607 / 36028797018963968 \<le> shadowOpacity st
         \<and> shadowOpacity st \<le> 0.105)
    \<and> (\<forall>s. toDouble 0.9 \<le> s \<and> s \<le> toDouble 1.05 \<longrightarrow>
           min s (toDouble 1.2) = s
         \<and> 1891511843495607 / 36028797018963968 \<le> shadowOpacityOf s
         \<and> shadowOpacityOf s \<le> 0.105)"
proof -
  have parts: "cardScale index x1 = cardScale index x2"
    "cardTranslateY index x1 = cardTranslateY index x2"
    "cardBorderOpacity index x1 = cardBorderOpacity index x2"
    by (simp_all add: cardScale_def cardTranslateY_def cardBorderOpacity_def assms)
  have same: "animatedStyle index x1 = animatedStyle index x2"
    unfolding animatedStyle_def parts by (rule refl)
  obtain sc where sc: "cardScale index x1 = Some sc"
    by (simp add: cardScale_closed)
  obtain ty where ty: "cardTranslateY index x1 = Some ty"
    by (simp add: cardTranslateY_closed)
  obtain bo where bo: "cardBorderOpacity index x1 = Some bo"
    by (simp add: cardBorderOpacity_closed)
  let ?st = "\<lparr> scale = sc, translateY = ty, borderColorAlpha = 0.8 * bo,
                shadowOpacity = shadowOpacityOf (toDouble sc) \<rparr>"
  have st: "animatedStyle index x1 = Some ?st"
    by (rule animatedStyle_Some [OF sc ty bo])
  from cardScale_range [OF sc] have rng: "0.9 \<le> sc" "sc \<le> 1.05"
    by simp_all
  from toDouble_scale_range [OF rng]
  have "toDouble 0.9 \<le> toDouble sc" and "toDouble sc \<le> toDouble 1.05"
    by simp_all
  from shadowOpacityOf_range [OF this]
  have guard: "min (toDouble sc) (toDouble 1.2) = toDouble sc"
    and low: "1891511843495607 / 36028797018963968 \<le> shadowOpacityOf (toDouble sc)"
    and high: "shadowOpacityOf (toDouble sc) \<le> 7566047373982431 / 72057594037927936"
    by simp_all
  from high have high': "shadowOpacityOf (toDouble sc) \<le> 0.105"
    by simp
  have formula: "shadowOpacityOf (toDouble sc)
      = dmul (toDouble 0.35) (dsub (toDouble 1.2) (toDouble sc))"
    unfolding shadowOpacityOf_def guard by (rule refl)
  have "scale ?st \<le> 1.05
      \<and> min (toDouble (scale ?st)) (toDouble 1.2) = toDouble (scale ?st)
      \<and> shadowOpacity ?st
          = dmul (toDouble 0.35) (dsub (toDouble 1.2) (toDouble (scale ?st)))
      \<and> 1891511843495607 / 36028797018963968 \<le> shadowOpacity ?st
      \<and> shadowOpacity ?st \<le> 0.105"
    using rng(2) guard formula low high' by simp
  with st have style: "\<exists>st. animatedStyle index x1 = Some st
         \<and> scale st \<le> 1.05
         \<and> min (toDouble (scale st)) (toDouble 1.2) = toDouble (scale st)
         \<and> shadowOpacity st
             = dmul (toDouble 0.35) (dsub (toDouble 1.2) (toDouble (scale st)))
         \<and> 1891511843495607 / 36028797018963968 \<le> shadowOpacity st
         \<and> shadowOpacity st \<le> 0.105"
    by blast
  have every: "min s (toDouble 1.2) = s
         \<and> 1891511843495607 / 36028797018963968 \<le> shadowOpacityOf s
         \<and> shadowOpacityOf s \<le> 0.105"
    if "toDouble 0.9 \<le> s \<and> s \<le> toDouble 1.05" for s
  proof -
    from that have "toDouble 0.9 \<le> s" and "s \<le> toDouble 1.05"
      by simp_all
    from shadowOpacityOf_range [OF this] show ?thesis
      by simp
  qed
  from same parts(3) style every show ?thesis
    by blast
qed

text \<open>
  The second card (left edge at 142) seen from offsets 92 and 192: signed distances 50
  and -50.
\<close>

theorem card_transform_symmetric_witness:
  "distanceToLeft 1 92 = 50 \<and> distanceToLeft 1 192 = - 50
   \<and> \<bar>distanceToLeft 1 92\<bar> = \<bar>distanceToLeft 1 192\<bar>
   \<and> animatedStyle 1 92 = animatedStyle 1 192
   \<and> cardBorderOpacity 1 92 = cardBorderOpacity 1 192
   \<and> (\<exists>st. animatedStyle 1 92 = Some st
         \<and> scale st \<le> 1.05
         \<and> min (toDouble (scale st)) (toDouble 1.2) = toDouble (scale st)
         \<and> shadowOpacity st
             = dmul (toDouble 0.35) (dsub (toDouble 1.2) (toDouble (scale st)))
         \<and> 1891511843495607 / 36028797018963968 \<le> shadowOpacity st
         \<and> shadowOpacity st \<le> 0.105)
   \<and> toDouble 0.9 \<le> toDouble 1 \<and> toDouble 1 \<le> toDouble 1.05
   \<and> min (toDouble 1) (toDouble 1.2) = toDouble 1
   \<and> 1891511843495607 / 36028797018963968 \<le> shadowOpacityOf (toDouble 1)
   \<and> shadowOpacityOf (toDouble 1) \<le> 0.105"
proof -
  have d: "distanceToLeft 1 92 = 50" "distanceToLeft 1 192 = - 50"
    by (simp_all add: distanceToLeft_eq)
  then have h: "\<bar>distanceToLeft 1 92\<bar> = \<bar>distanceToLeft 1 192\<bar>"
    by simp
  have one: "toDouble 0.9 \<le> toDouble 1 \<and> toDouble 1 \<le> toDouble 1.05"
    unfolding double_0_9 double_1_05 toDouble_1 by simp
  from card_transform_symmetric [OF h]
  have "\<forall>s. toDouble 0.9 \<le> s \<and> s \<le> toDouble 1.05 \<longrightarrow>
           min s (toDouble 1.2) = s
         \<and> 1891511843495607 / 36028797018963968 \<le> shadowOpacityOf s
         \<and> shadowOpacityOf s \<le> 0.105"
    by blast
  with one have "min (toDouble 1) (toDouble 1.2) = toDouble 1
         \<and> 1891511843495607 / 36028797018963968 \<le> shadowOpacityOf (toDouble 1)
         \<and> shadowOpacityOf (toDouble 1) \<le> 0.105"
    by blast
  with card_transform_symmetric [OF h] d h one show ?thesis
    by blast
qed

text \<open>
  The first card at scroll offset 18 (distance 0, scale 1.05): the shadow opacity is
  the double printed as 0.05249999999999996, below 0.0525. The interval from 0.0525 to
  0.105 fails there.
\<close>

theorem shadow_opacity_interval_counterexample:
  "map_option scale (animatedStyle 0 18) = Some 1.05
   \<and> map_option shadowOpacity (animatedStyle 0 18)
       = Some (1891511843495607 / 36028797018963968)
   \<and> (1891511843495607 / 36028797018963968 :: real) < 0.0525"
proof -
  have "animatedStyle 0 18 =
      Some \<lparr> scale = 1.05, translateY = - 6, borderColorAlpha = 0.8,
             shadowOpacity = shadowOpacityOf (toDouble 1.05) \<rparr>"
    by (simp add: card_eval)
  moreover have "shadowOpacityOf (toDouble 1.05) = 1891511843495607 / 36028797018963968"
    unfolding double_1_05 by (rule shadow_at_1_05)
  ultimately show ?thesis
    by simp
qed

section \<open>The screen's state under events\<close>

lemma length_POSTER_TYPES: "length POSTER_TYPES = 6"
  by (simp add: POSTER_TYPES_def)

lemma handle_SegmentPress:
  "handle (SegmentPress i) s = (if i < 2 then Some (s\<lparr>activeTab := i\<rparr>) else None)"
proof -
  have len: "length segmentLabels = 2"
    by (simp add: segmentLabels_def)
  show ?thesis
    unfolding handle.simps segmentOnPress_def len
    by (simp add: setActiveTab_def del: upt_Suc upt_rec_numeral)
qed

lemma handle_CardPress:
  "handle (CardPress i) s =
    (if i < length (catalog s) then Some (s\<lparr>selected := i\<rparr>) else None)"
  by (simp add: cardOnPress_def setSelected_def)

lemma handle_catalog:
  assumes "handle e s = Some s'"
  shows "catalog s' = catalog s"
  using assms
  by (cases e) (auto simp: handle_SegmentPress handle_CardPress setPrompt_def
      simp del: handle.simps(1,2) split: if_splits)

lemma run_catalog:
  assumes "run es s = Some s'"
  shows "catalog s' = catalog s"
  using assms
proof (induction es arbitrary: s)
  case Nil
  then show ?case by simp
next
  case (Cons e es)
  then obtain s1 where step: "handle e s = Some s1" and rest: "run es s1 = Some s'"
    by (auto split: option.splits)
  from Cons.IH [OF rest] handle_catalog [OF step] show ?case by simp
qed

lemma handle_bounds:
  assumes "handle e s = Some s'"
    and "selected s < length (catalog s)" and "activeTab s < 2"
  shows "selected s' < length (catalog s') \<and> activeTab s' < 2"
  using assms
  by (cases e) (auto simp: handle_SegmentPress handle_CardPress setPrompt_def
      simp del: handle.simps(1,2) split: if_splits)

lemma run_bounds:
  assumes "run es s = Some s'"
    and "selected s < length (catalog s)" and "activeTab s < 2"
  shows "selected s' < length (catalog s') \<and> activeTab s' < 2"
  using assms
proof (induction es arbitrary: s)
  case Nil
  then show ?case by simp
next
  case (Cons e es)
  then obtain s1 where step: "handle e s = Some s1" and rest: "run es s1 = Some s'"
    by (auto split: option.splits)
  from handle_bounds [OF step Cons.prems(2,3)]
  have "selected s1 < length (catalog s1)" "activeTab s1 < 2"
    by simp_all
  with Cons.IH [OF rest] show ?case by simp
qed

lemma initialScreen_bounds:
  "selected initialScreen < length (catalog initialScreen) \<and> activeTab initialScreen < 2"
  by (simp add: initialScreen_def length_POSTER_TYPES)

lemma initialScreen_catalog: "catalog initialScreen = POSTER_TYPES"
  by (simp add: initialScreen_def)

text \<open>
  C3. For every \<open>i\<close> from 0 to 5, in every state reachable from the initial state, a tap
  on the carousel card at position \<open>i\<close> is handled and sets the selected index to
  exactly \<open>i\<close>, changing nothing else.
\<close>

theorem card_tap_sets_selected:
  assumes "i \<le> 5" and "run es initialScreen = Some s"
  shows "\<exists>s'. handle (CardPress i) s = Some s' \<and> selected s' = i
            \<and> s' = s\<lparr>selected := i\<rparr>"
proof -
  from run_catalog [OF assms(2)] have "length (catalog s) = 6"
    by (simp add: initialScreen_catalog length_POSTER_TYPES)
  with assms(1) have "i < length (catalog s)"
    by simp
  then show ?thesis
    by (simp add: handle_CardPress del: handle.simps)
qed

theorem card_tap_sets_selected_witness:
  "(5::nat) \<le> 5
   \<and> run [Scroll 124, CardPress 2] initialScreen
       = Some (initialScreen\<lparr>scrollX := 124, selected := 2\<rparr>)
   \<and> (\<exists>s'. handle (CardPress 5) (initialScreen\<lparr>scrollX := 124, selected := 2\<rparr>) = Some s'
          \<and> selected s' = 5
          \<and> s' = initialScreen\<lparr>scrollX := 124, selected := 2, selected := 5\<rparr>)"
proof -
  have r: "run [Scroll 124, CardPress 2] initialScreen
       = Some (initialScreen\<lparr>scrollX := 124, selected := 2\<rparr>)"
    by (simp add: handle_CardPress initialScreen_def length_POSTER_TYPES
        del: handle.simps(2))
  have i: "(5::nat) \<le> 5"
    by simp
  from card_tap_sets_selected [OF i r] r i show ?thesis
    by blast
qed

text \<open>
  C4. For every string \<open>t\<close>, editing the prompt field with text \<open>t\<close> stores exactly \<open>t\<close>
  as the prompt, and the field shows the stored prompt: reading after the edit gives \<open>t\<close>
  back.
\<close>

theorem prompt_round_trip:
  "\<exists>s'. handle (ChangeText t) s = Some s' \<and> prompt s' = t \<and> promptInputValue s' = t"
  by (simp add: setPrompt_def promptInputValue_def)

theorem prompt_round_trip_witness:
  "\<exists>s'. handle (ChangeText ''a red bicycle'') initialScreen = Some s'
      \<and> prompt s' = ''a red bicycle'' \<and> promptInputValue s' = ''a red bicycle''"
  by (rule prompt_round_trip [of "''a red bicycle''" initialScreen])

text \<open>
  C5. In every state reachable from the initial state by tab selections, card taps,
  prompt edits and scroll events, the selected carousel index is within the six-entry
  catalog (at most 5) and the active tab index is 0 or 1.
\<close>

theorem reachable_indices_in_bounds:
  assumes "run es initialScreen = Some s"
  shows "selected s \<le> 5 \<and> selected s < length POSTER_TYPES \<and> activeTab s \<in> {0, 1}"
proof -
  from initialScreen_bounds
  have init: "selected initialScreen < length (catalog initialScreen)"
    "activeTab initialScreen < 2"
    by simp_all
  from run_bounds [OF assms init]
  have b: "selected s < length (catalog s)" "activeTab s < 2"
    by simp_all
  from run_catalog [OF assms] have "catalog s = POSTER_TYPES"
    by (simp add: initialScreen_catalog)
  with b show ?thesis
    by (auto simp: length_POSTER_TYPES)
qed

theorem reachable_indices_in_bounds_witness:
  "run [CardPress 5, SegmentPress 1, ChangeText ''tea'', Scroll 620, MomentumEnd 620]
      initialScreen
     = Some (initialScreen\<lparr>selected := 5, activeTab := 1, prompt := ''tea'',
                             scrollX := 620\<rparr>)
   \<and> selected (initialScreen\<lparr>selected := 5, activeTab := 1, prompt := ''tea'',
                             scrollX := 620\<rparr>) \<le> 5
   \<and> activeTab (initialScreen\<lparr>selected := 5, activeTab := 1, prompt := ''tea'',
                             scrollX := 620\<rparr>) \<in> {0, 1}"
proof -
  have r: "run [CardPress 5, SegmentPress 1, ChangeText ''tea'', Scroll 620, MomentumEnd 620]
      initialScreen
     = Some (initialScreen\<lparr>selected := 5, activeTab := 1, prompt := ''tea'',
                             scrollX := 620\<rparr>)"
    by (simp add: handle_CardPress handle_SegmentPress setPrompt_def initialScreen_def
        length_POSTER_TYPES del: handle.simps(1,2))
  from reachable_indices_in_bounds [OF r] r show ?thesis
    by blast
qed

text \<open>
  C6. In the initial state the prompt is the hardcoded default string, the selected
  carousel index is 0 and the active tab index is 0.
\<close>

theorem initial_state:
  "prompt initialScreen = ''stunning promotional image of a deliciously decorated cake, emphasiszing its layers, frosting, and toppings in an enticing setting.''
   \<and> selected initialScreen = 0 \<and> activeTab initialScreen = 0"
  by (simp add: initialScreen_def)

text \<open>
  C7. The segmented control renders exactly two options, at most one of them
  highlighted; for \<open>i\<close> equal to 0 or 1, selecting option \<open>i\<close> changes the active index to
  \<open>i\<close> and nothing else, after which option \<open>i\<close> and only it is highlighted.
\<close>

theorem segmented_control_select:
  assumes "i < 2"
  shows "length (SegmentedControl a) = 2
    \<and> length (filter snd (SegmentedControl a)) \<le> 1
    \<and> handle (SegmentPress i) s = Some (s\<lparr>activeTab := i\<rparr>)
    \<and> map snd (SegmentedControl (activeTab (s\<lparr>activeTab := i\<rparr>))) = [i = 0, i = 1]"
proof -
  have up: "[0..<2] = [0, Suc 0]"
    by (simp add: upt_rec)
  have "length (SegmentedControl a) = 2"
    by (simp add: SegmentedControl_def segmentLabels_def)
  moreover have "length (filter snd (SegmentedControl a)) \<le> 1"
    by (simp add: SegmentedControl_def segmentLabels_def up)
  moreover from assms have "handle (SegmentPress i) s = Some (s\<lparr>activeTab := i\<rparr>)"
    by (simp add: handle_SegmentPress del: handle.simps)
  moreover have "map snd (SegmentedControl (activeTab (s\<lparr>activeTab := i\<rparr>))) = [i = 0, i = 1]"
    by (auto simp: SegmentedControl_def segmentLabels_def up)
  ultimately show ?thesis
    by blast
qed

theorem segmented_control_select_witness:
  "(1::nat) < 2
   \<and> SegmentedControl 0 = [(''Smart script'', True), (''Advanced script'', False)]
   \<and> handle (SegmentPress 1) initialScreen = Some (initialScreen\<lparr>activeTab := 1\<rparr>)
   \<and> map snd (SegmentedControl (activeTab (initialScreen\<lparr>activeTab := 1\<rparr>))) = [False, True]"
proof -
  have i: "(1::nat) < 2"
    by simp
  have up: "[0..<2] = [0, Suc 0]"
    by (simp add: upt_rec)
  have r: "SegmentedControl 0 = [(''Smart script'', True), (''Advanced script'', False)]"
    by (simp add: SegmentedControl_def segmentLabels_def up)
  from segmented_control_select [OF i, of 0 initialScreen] r i show ?thesis
    by simp
qed

text \<open>
  C8. The poster-type catalog has exactly six entries, and after any sequence of events
  of the screen the catalog is the initial list \<open>POSTER_TYPES\<close>: no event adds, changes or
  removes an entry.
\<close>

theorem catalog_unchanged:
  assumes "run es initialScreen = Some s"
  shows "length POSTER_TYPES = 6 \<and> catalog initialScreen = POSTER_TYPES
    \<and> catalog s = POSTER_TYPES"
  using run_catalog [OF assms]
  by (simp add: initialScreen_catalog length_POSTER_TYPES)

theorem catalog_unchanged_witness:
  "run [CardPress 3, ChangeText ''x'', GeneratePress, SegmentPress 1, Scroll 248]
      initialScreen
     = Some (initialScreen\<lparr>selected := 3, prompt := ''x'', activeTab := 1, scrollX := 248\<rparr>)
   \<and> catalog (initialScreen\<lparr>selected := 3, prompt := ''x'', activeTab := 1, scrollX := 248\<rparr>)
       = POSTER_TYPES
   \<and> length POSTER_TYPES = 6"
proof -
  have r: "run [CardPress 3, ChangeText ''x'', GeneratePress, SegmentPress 1, Scroll 248]
      initialScreen
     = Some (initialScreen\<lparr>selected := 3, prompt := ''x'', activeTab := 1, scrollX := 248\<rparr>)"
    by (simp add: handle_CardPress handle_SegmentPress setPrompt_def initialScreen_def
        length_POSTER_TYPES del: handle.simps(1,2))
  from catalog_unchanged [OF r] r show ?thesis
    by blast
qed

text \<open>
  C9. A tap on the Generate button and a tap on either settings row (Size, Category)
  are handled and leave the whole state as it is: active tab, selected index, prompt,
  scroll offset and catalog.
\<close>

theorem taps_without_effect:
  "handle GeneratePress s = Some s \<and> handle SizeRowPress s = Some s
   \<and> handle CategoryRowPress s = Some s
   \<and> run [GeneratePress, SizeRowPress, CategoryRowPress] s = Some s"
  by simp

end
